theory Spec2Isabelle
  imports Main
begin

section \<open>Data model of watcher.go\<close>

text \<open>
  \<open>sarah.BotType\<close> is a string type.  Errors are values: the sentinel
  \<open>SubscriptionTimeout\<close>, the error \<open>get\<close> wraps around the querier's
  (\<open>fmt.Errorf("failed to query Github API: %w", err)\<close>),
  \<open>sarah.ConfigNotFoundError\<close>, the unsupported-extension error built by \<open>read\<close>
  (with the file's id and extension), the construction error of \<open>New\<close>, and
  \<open>Foreign\<close> for an error made by a library (the querier, the yaml and json
  decoders), identified by its message.
\<close>

type_synonym BotType = string

datatype error =
    SubscriptionTimeout
  | QueryFailed error
  | ConfigNotFoundError BotType string
  | UnsupportedExtension string string
  | ClientMissing
  | Foreign string

text \<open>Durations are \<open>time.Duration\<close> values: a count of nanoseconds.\<close>

definition Nanosecond :: int where "Nanosecond = 1"
definition Microsecond :: int where "Microsecond = 1000 * Nanosecond"
definition Millisecond :: int where "Millisecond = 1000 * Microsecond"
definition Second :: int where "Second = 1000 * Millisecond"
definition Minute :: int where "Minute = 60 * Second"

record Config =
  Owner :: string
  Name :: string
  BaseDir :: string
  Branch :: string
  Interval :: int
  TimeOut :: int

definition NewConfig :: "string \<Rightarrow> string \<Rightarrow> string \<Rightarrow> Config" where
  "NewConfig owner name baseDir =
     \<lparr>Owner = owner, Name = name, BaseDir = baseDir, Branch = ''master'',
      Interval = 1 * Minute, TimeOut = 5 * Second\<rparr>"

text \<open>
  The struct \<open>file\<close> is \<open>conf_file\<close> here and its field \<open>id\<close> is
  \<open>file_id\<close> (both names are taken in Isabelle).  The struct \<open>entry\<close> is flattened: \<open>Oid\<close> and \<open>Text\<close> are \<open>entry.Object.Blob.Oid\<close> and
  \<open>entry.Object.Blob.Text\<close>.
\<close>

record conf_file =
  file_id :: string
  fileName :: string
  extension :: string
  objectID :: string
  content :: string

record entry =
  Name :: string
  Oid :: string
  Text :: string

text \<open>
  What the process does not define itself is a parameter: the two decoders
  (\<open>yaml.Unmarshal\<close>, \<open>json.Unmarshal\<close>: from the content and the current value of the
  output target to an optional error and the new value of the target) and
  \<open>os.IsPathSeparator\<close>, which \<open>filepath.Ext\<close> consults.
\<close>

record 'o runtime =
  yaml_Unmarshal :: "string \<Rightarrow> 'o \<Rightarrow> error option \<times> 'o"
  json_Unmarshal :: "string \<Rightarrow> 'o \<Rightarrow> error option \<times> 'o"
  IsPathSeparator :: "char \<Rightarrow> bool"

section \<open>get: from the query's entries to the file set\<close>

text \<open>
  \<open>filepath.Ext\<close> scans the name from its last byte towards the first, stops with the
  empty string at a path separator, and returns the suffix that starts at the first dot it
  meets.  \<open>ext_scan\<close> is that loop on the reversed name, \<open>acc\<close> being the bytes already
  passed.
\<close>

fun ext_scan :: "(char \<Rightarrow> bool) \<Rightarrow> string \<Rightarrow> string \<Rightarrow> string" where
  "ext_scan sep [] acc = []"
| "ext_scan sep (c # cs) acc =
     (if sep c then []
      else if c = CHR ''.'' then c # acc
      else ext_scan sep cs (c # acc))"

definition Ext :: "(char \<Rightarrow> bool) \<Rightarrow> string \<Rightarrow> string" where
  "Ext sep path = ext_scan sep (rev path) []"

definition HasSuffix :: "string \<Rightarrow> string \<Rightarrow> bool" where
  "HasSuffix s suffix \<longleftrightarrow>
     length suffix \<le> length s \<and> drop (length s - length suffix) s = suffix"

definition TrimSuffix :: "string \<Rightarrow> string \<Rightarrow> string" where
  "TrimSuffix s suffix =
     (if HasSuffix s suffix then take (length s - length suffix) s else s)"

text \<open>The body of the loop over \<open>q.Repository.Object.Tree.Entries\<close>.\<close>

definition entry_file :: "(char \<Rightarrow> bool) \<Rightarrow> entry \<Rightarrow> conf_file" where
  "entry_file sep e =
     (let name = Name e;
          ext = Ext sep name;
          i = TrimSuffix name ext
      in \<lparr>file_id = i, fileName = name, extension = ext,
          objectID = Oid e, content = Text e\<rparr>)"

fun collect :: "(char \<Rightarrow> bool) \<Rightarrow> (string \<rightharpoonup> conf_file) \<Rightarrow> entry list \<Rightarrow> (string \<rightharpoonup> conf_file)" where
  "collect sep files [] = files"
| "collect sep files (e # es) =
     (let cfg = entry_file sep e in collect sep (files(file_id cfg \<mapsto> cfg)) es)"

text \<open>
  The outcome of \<open>w.client.Query\<close> is an input: \<open>Inl e\<close> when it returns the error \<open>e\<close>,
  \<open>Inr entries\<close> when it fills the query with the tree's entries.  The variables sent
  with the query (owner, name, expression) do not enter the result.
\<close>

type_synonym query_result = "error + entry list"

definition get :: "'o runtime \<Rightarrow> query_result \<Rightarrow> error + (string \<rightharpoonup> conf_file)" where
  "get rt q =
     (case q of
        Inl e \<Rightarrow> Inl (QueryFailed e)
      | Inr entries \<Rightarrow> Inr (collect (IsPathSeparator rt) Map.empty entries))"

section \<open>read: decoding by extension\<close>

definition read :: "'o runtime \<Rightarrow> conf_file \<Rightarrow> 'o \<Rightarrow> error option \<times> 'o" where
  "read rt f out =
     (if extension f = ''.yml'' \<or> extension f = ''.yaml'' then yaml_Unmarshal rt (content f) out
      else if extension f = ''.json'' then json_Unmarshal rt (content f) out
      else (Some (UnsupportedExtension (file_id f) (extension f)), out))"

section \<open>operate: the event loop\<close>

text \<open>
  The loop owns two maps.  One pass of the \<open>select\<close> takes one event and produces the
  effects the pass has outside the two maps, in order: a call of the querier, a send on a
  request's reply channel (with the value the output target holds at that moment), a
  goroutine started for a callback.  \<open>Go\<close> also records the botType and id the callback
  was registered under; the code starts \<open>callback()\<close> only.
\<close>

record 'o request =
  botType :: BotType
  req_id :: string
  out :: 'o
  err :: nat

record 'cb tables =
  cache :: "BotType \<rightharpoonup> (string \<rightharpoonup> conf_file)"
  subscription :: "BotType \<rightharpoonup> (string \<rightharpoonup> 'cb)"

datatype ('cb, 'o) effect =
    Query BotType
  | Send nat "error option" 'o
  | Go BotType string 'cb

text \<open>
  The events.  A request carries the outcome the querier has if this pass calls it.  A
  tick carries the order in which \<open>range subscription\<close> visits the botTypes, for each
  botType the order in which \<open>range sub\<close> visits its ids (Go fixes neither), and the
  outcome of the query for each botType.
\<close>

datatype ('cb, 'o) event =
    Done
  | Subscribe BotType string 'cb
  | Unsubscribe BotType
  | ReadRequest "'o request" query_result
  | Tick "BotType list" "BotType \<Rightarrow> string list" "BotType \<Rightarrow> query_result"

definition range_order :: "('k \<rightharpoonup> 'v) \<Rightarrow> 'k list \<Rightarrow> bool" where
  "range_order m ks \<longleftrightarrow> distinct ks \<and> set ks = dom m"

definition tick_order :: "'cb tables \<Rightarrow> BotType list \<Rightarrow> (BotType \<Rightarrow> string list) \<Rightarrow> bool" where
  "tick_order s bts ids \<longleftrightarrow>
     range_order (subscription s) bts \<and>
     (\<forall>bt sub. subscription s bt = Some sub \<longrightarrow> range_order sub (ids bt))"

text \<open>\<open>case s := <-w.subscription\<close>\<close>

definition on_subscription :: "'cb tables \<Rightarrow> BotType \<Rightarrow> string \<Rightarrow> 'cb \<Rightarrow> 'cb tables" where
  "on_subscription s bt i callback =
     (let subs = (if subscription s bt = None then (subscription s)(bt \<mapsto> Map.empty)
                  else subscription s);
          sub = (case subs bt of None \<Rightarrow> Map.empty | Some m \<Rightarrow> m)
      in s\<lparr>subscription := subs(bt \<mapsto> sub(i \<mapsto> callback))\<rparr>)"

text \<open>\<open>case botType := <-w.unsubscription\<close>\<close>

definition on_unsubscription :: "'cb tables \<Rightarrow> BotType \<Rightarrow> 'cb tables" where
  "on_unsubscription s bt =
     s\<lparr>cache := (cache s)(bt := None), subscription := (subscription s)(bt := None)\<rparr>"

text \<open>
  \<open>case req := <-w.request\<close>.  \<open>files\<close> and \<open>ok\<close> are the variables declared by
  \<open>files, ok := cache[req.botType]\<close>; a missing key gives the nil map, which reads as
  empty.  Inside the \<open>if !ok\<close> block, \<open>files, err := w.get(...)\<close> declares two new
  variables of that block: \<open>fetched\<close> below is that inner \<open>files\<close>.  It is stored in
  the cache; the lookup \<open>files[req.id]\<close> after the block reads the outer variable.
\<close>

definition answer :: "'o runtime \<Rightarrow> (string \<rightharpoonup> conf_file) \<Rightarrow> 'o request \<Rightarrow> ('cb, 'o) effect" where
  "answer rt files req =
     (case files (req_id req) of
        None \<Rightarrow> Send (err req) (Some (ConfigNotFoundError (botType req) (req_id req))) (out req)
      | Some f \<Rightarrow> (case read rt f (out req) of (e, out') \<Rightarrow> Send (err req) e out'))"

definition on_request ::
  "'o runtime \<Rightarrow> 'cb tables \<Rightarrow> 'o request \<Rightarrow> query_result \<Rightarrow> 'cb tables \<times> ('cb, 'o) effect list" where
  "on_request rt s req q =
     (let ok = (cache s (botType req) \<noteq> None);
          files = (case cache s (botType req) of None \<Rightarrow> Map.empty | Some m \<Rightarrow> m)
      in if \<not> ok then
           (let s1 = s\<lparr>cache := (cache s)(botType req \<mapsto> Map.empty)\<rparr>
            in case get rt q of
                 Inl e \<Rightarrow> (s1, [Query (botType req), Send (err req) (Some e) (out req)])
               | Inr fetched \<Rightarrow>
                   (s1\<lparr>cache := (cache s1)(botType req \<mapsto> fetched)\<rparr>,
                    [Query (botType req), answer rt files req]))
         else (s, [answer rt files req]))"

text \<open>
  \<open>case <-ticker.C\<close>.  \<open>notify\<close> is the inner loop \<open>for id, callback := range sub\<close>,
  over the ids in the order given; \<open>c\<close> is the cache as the loop finds it (the loop does
  not write it), and \<open>cache[botType][f.id]\<close> on a missing botType reads the nil map.
\<close>

definition changed :: "(BotType \<rightharpoonup> (string \<rightharpoonup> conf_file)) \<Rightarrow> BotType \<Rightarrow> conf_file \<Rightarrow> bool" where
  "changed c bt f =
     (case (case c bt of None \<Rightarrow> Map.empty | Some m \<Rightarrow> m) (file_id f) of
        None \<Rightarrow> True
      | Some old \<Rightarrow> objectID old \<noteq> objectID f)"

fun notify ::
  "(BotType \<rightharpoonup> (string \<rightharpoonup> conf_file)) \<Rightarrow> BotType \<Rightarrow> (string \<rightharpoonup> conf_file) \<Rightarrow> (string \<rightharpoonup> 'cb) \<Rightarrow>
   string list \<Rightarrow> ('cb, 'o) effect list" where
  "notify c bt files sub [] = []"
| "notify c bt files sub (i # is) =
     (case sub i of
        None \<Rightarrow> notify c bt files sub is
      | Some callback \<Rightarrow>
          (case files i of
             None \<Rightarrow> notify c bt files sub is
           | Some f \<Rightarrow>
               (if changed c bt f then Go bt i callback # notify c bt files sub is
                else notify c bt files sub is)))"

text \<open>The body of the outer loop \<open>for botType, sub := range subscription\<close>.\<close>

definition tick_botType ::
  "'o runtime \<Rightarrow> (BotType \<Rightarrow> string list) \<Rightarrow> (BotType \<Rightarrow> query_result) \<Rightarrow> 'cb tables \<Rightarrow> BotType \<Rightarrow>
   'cb tables \<times> ('cb, 'o) effect list" where
  "tick_botType rt ids qs s bt =
     (case subscription s bt of
        None \<Rightarrow> (s, [])
      | Some sub \<Rightarrow>
          (case get rt (qs bt) of
             Inl e \<Rightarrow> (s, [Query bt])
           | Inr files \<Rightarrow>
               (let c1 = (if cache s bt = None then (cache s)(bt \<mapsto> files) else cache s)
                in (s\<lparr>cache := c1(bt \<mapsto> files)\<rparr>,
                    Query bt # notify c1 bt files sub (ids bt)))))"

fun on_tick ::
  "'o runtime \<Rightarrow> (BotType \<Rightarrow> string list) \<Rightarrow> (BotType \<Rightarrow> query_result) \<Rightarrow> 'cb tables \<Rightarrow>
   BotType list \<Rightarrow> 'cb tables \<times> ('cb, 'o) effect list" where
  "on_tick rt ids qs s [] = (s, [])"
| "on_tick rt ids qs s (bt # bts) =
     (case tick_botType rt ids qs s bt of
        (s1, es1) \<Rightarrow> (case on_tick rt ids qs s1 bts of (s2, es2) \<Rightarrow> (s2, es1 @ es2)))"

text \<open>One pass of the \<open>select\<close>, for the events that do not end the loop.\<close>

fun select :: "'o runtime \<Rightarrow> 'cb tables \<Rightarrow> ('cb, 'o) event \<Rightarrow> 'cb tables \<times> ('cb, 'o) effect list" where
  "select rt s Done = (s, [])"
| "select rt s (Subscribe bt i callback) = (on_subscription s bt i callback, [])"
| "select rt s (Unsubscribe bt) = (on_unsubscription s bt, [])"
| "select rt s (ReadRequest req q) = on_request rt s req q"
| "select rt s (Tick bts ids qs) = on_tick rt ids qs s bts"

text \<open>
  The loop on a finite sequence of events, from given tables: \<open>Done\<close> returns, and at the
  end of the sequence the loop is waiting.  \<open>operate\<close> starts it from the two empty maps.
\<close>

fun run :: "'o runtime \<Rightarrow> 'cb tables \<Rightarrow> ('cb, 'o) event list \<Rightarrow> 'cb tables \<times> ('cb, 'o) effect list" where
  "run rt s [] = (s, [])"
| "run rt s (Done # evs) = (s, [])"
| "run rt s (ev # evs) =
     (case select rt s ev of
        (s1, es1) \<Rightarrow> (case run rt s1 evs of (s2, es2) \<Rightarrow> (s2, es1 @ es2)))"

definition operate :: "'o runtime \<Rightarrow> ('cb, 'o) event list \<Rightarrow> 'cb tables \<times> ('cb, 'o) effect list" where
  "operate rt evs = run rt \<lparr>cache = Map.empty, subscription = Map.empty\<rparr> evs"

section \<open>New: construction\<close>

text \<open>
  Of the struct \<open>watcher\<close>, the fields \<open>client\<close> and \<open>config\<close>; the three channels are
  created fresh by \<open>New\<close> and hold nothing.  \<open>client\<close> is an interface value: \<open>None\<close>
  is the nil interface.  \<open>'c\<close> is the type of the values an option stores in it.
\<close>

record 'c watcher =
  client :: "'c option"
  config :: Config

type_synonym 'c Option = "'c watcher \<Rightarrow> 'c watcher"

definition WithClient :: "'c \<Rightarrow> 'c Option" where
  "WithClient c w = w\<lparr>client := Some c\<rparr>"

text \<open>\<open>newClient\<close> stands for \<open>githubv4.NewClient\<close> on the oauth2 client of the token.\<close>

definition WithToken :: "(string \<Rightarrow> 'c) \<Rightarrow> string \<Rightarrow> 'c Option" where
  "WithToken newClient token w = w\<lparr>client := Some (newClient token)\<rparr>"

definition apply_opts :: "'c watcher \<Rightarrow> 'c Option list \<Rightarrow> 'c watcher" where
  "apply_opts w opts = foldl (\<lambda>w opt. opt w) w opts"

definition New :: "Config \<Rightarrow> 'c Option list \<Rightarrow> error + 'c watcher" where
  "New cfg opts =
     (let w = apply_opts \<lparr>client = None, config = cfg\<rparr> opts
      in if client w = None then Inl ClientMissing else Inr w)"

section \<open>Reading the effects of a pass\<close>

text \<open>
  \<open>dispatches bt i es\<close> are the goroutines that \<open>es\<close> starts for the callback
  registered under botType \<open>bt\<close> and id \<open>i\<close>; \<open>is_Send\<close> holds of a reply on a
  request's channel.
\<close>

fun dispatched :: "BotType \<Rightarrow> string \<Rightarrow> ('cb, 'o) effect \<Rightarrow> bool" where
  "dispatched bt i (Go b j c) = (b = bt \<and> j = i)"
| "dispatched bt i (Query b) = False"
| "dispatched bt i (Send ch e v) = False"

definition dispatches :: "BotType \<Rightarrow> string \<Rightarrow> ('cb, 'o) effect list \<Rightarrow> ('cb, 'o) effect list" where
  "dispatches bt i es = filter (dispatched bt i) es"

fun is_Send :: "('cb, 'o) effect \<Rightarrow> bool" where
  "is_Send (Send ch e v) = True"
| "is_Send (Query b) = False"
| "is_Send (Go b j c) = False"


section \<open>Read and the reply channel\<close>

text \<open>
  \<open>Read\<close> makes the reply channel with \<open>make(chan error)\<close>, sends the request on
  \<open>w.request\<close> and then selects between a timer of \<open>Config.TimeOut\<close> and the reply.
  Both channels have no buffer.  The send on \<open>w.request\<close> completes when the loop takes
  the request (\<open>received\<close>), and does not return otherwise; which case of the
  \<open>select\<close> fires first is the input \<open>race\<close>.
\<close>

datatype race = TimerFirst | ReplyFirst "error option"

datatype call = Blocked | Returns "error option"

definition Read :: "bool \<Rightarrow> race \<Rightarrow> call" where
  "Read received r =
     (if received then
        (case r of TimerFirst \<Rightarrow> Returns (Some SubscriptionTimeout) | ReplyFirst e \<Rightarrow> Returns e)
      else Blocked)"

text \<open>
  The loop's side of the reply channel.  Each call of \<open>Read\<close> makes its own channel and
  is its only receiver, so a send on a channel whose \<open>Read\<close> has returned on the timer
  finds no receiver, then or later: the loop stays in that send.  \<open>gone\<close> is the set of
  these channels.  \<open>perform\<close> carries out the effects of a pass up to such a send.  In
  every pass all writes to the two maps come before the send, so the tables of a stuck loop
  are those after the pass.  \<open>run_blocking\<close> is \<open>run\<close> with this rule; it also returns
  where the loop is and the events it has not taken.
\<close>

datatype status = Waiting | Stopped | Stuck nat

fun perform :: "nat set \<Rightarrow> ('cb, 'o) effect list \<Rightarrow> ('cb, 'o) effect list \<times> nat option" where
  "perform gone [] = ([], None)"
| "perform gone (Send ch e v # es) =
     (if ch \<in> gone then ([], Some ch)
      else (case perform gone es of (performed, b) \<Rightarrow> (Send ch e v # performed, b)))"
| "perform gone (Query bt # es) =
     (case perform gone es of (performed, b) \<Rightarrow> (Query bt # performed, b))"
| "perform gone (Go bt i c # es) =
     (case perform gone es of (performed, b) \<Rightarrow> (Go bt i c # performed, b))"

fun run_blocking ::
  "nat set \<Rightarrow> 'o runtime \<Rightarrow> 'cb tables \<Rightarrow> ('cb, 'o) event list \<Rightarrow>
   'cb tables \<times> ('cb, 'o) effect list \<times> status \<times> ('cb, 'o) event list" where
  "run_blocking gone rt s [] = (s, [], Waiting, [])"
| "run_blocking gone rt s (Done # evs) = (s, [], Stopped, evs)"
| "run_blocking gone rt s (ev # evs) =
     (case select rt s ev of
        (s1, es1) \<Rightarrow>
          (case perform gone es1 of
             (performed, Some ch) \<Rightarrow> (s1, performed, Stuck ch, evs)
           | (performed, None) \<Rightarrow>
               (case run_blocking gone rt s1 evs of
                  (s2, es2, st, rest) \<Rightarrow> (s2, performed @ es2, st, rest))))"

section \<open>A concrete setting\<close>

text \<open>
  The scenario of the specification: the directory of \<open>slackBot\<close> holds \<open>hello.yml\<close>,
  first with version marker \<open>abc\<close>, later with \<open>def\<close>.  In \<open>demo_rt\<close> the output
  target is a string and both decoders store the content in it; callbacks are numbers.
\<close>

definition demo_rt :: "string runtime" where
  "demo_rt =
     \<lparr>yaml_Unmarshal = (\<lambda>c v. (None, c)), json_Unmarshal = (\<lambda>c v. (None, c)),
      IsPathSeparator = (\<lambda>c. c = CHR ''/'')\<rparr>"

definition hello_abc :: entry where
  "hello_abc = \<lparr>Name = ''hello.yml'', Oid = ''abc'', Text = ''message: hi''\<rparr>"

definition hello_def :: entry where
  "hello_def = \<lparr>Name = ''hello.yml'', Oid = ''def'', Text = ''message: bye''\<rparr>"

definition hello_json :: entry where
  "hello_json = \<lparr>Name = ''hello.json'', Oid = ''123'', Text = ''{}''\<rparr>"

definition hello_abc_file :: conf_file where
  "hello_abc_file =
     \<lparr>file_id = ''hello'', fileName = ''hello.yml'', extension = ''.yml'',
      objectID = ''abc'', content = ''message: hi''\<rparr>"

definition hello_def_file :: conf_file where
  "hello_def_file =
     \<lparr>file_id = ''hello'', fileName = ''hello.yml'', extension = ''.yml'',
      objectID = ''def'', content = ''message: bye''\<rparr>"

definition hello_req :: "string request" where
  "hello_req = \<lparr>botType = ''slackBot'', req_id = ''hello'', out = ''unset'', err = 0\<rparr>"

definition hello_req1 :: "string request" where
  "hello_req1 = \<lparr>botType = ''slackBot'', req_id = ''hello'', out = ''unset'', err = 1\<rparr>"

definition no_tables :: "nat tables" where
  "no_tables = \<lparr>cache = Map.empty, subscription = Map.empty\<rparr>"

definition watching :: "nat tables" where
  "watching = \<lparr>cache = Map.empty, subscription = [''slackBot'' \<mapsto> [''hello'' \<mapsto> 7]]\<rparr>"

definition watching_abc :: "nat tables" where
  "watching_abc =
     \<lparr>cache = [''slackBot'' \<mapsto> [''hello'' \<mapsto> hello_abc_file]],
      subscription = [''slackBot'' \<mapsto> [''hello'' \<mapsto> 7]]\<rparr>"

definition hello_ids :: "BotType \<Rightarrow> string list" where
  "hello_ids bt = [''hello'']"

definition answers_abc :: "BotType \<Rightarrow> query_result" where
  "answers_abc bt = Inr [hello_abc]"

definition answers_def :: "BotType \<Rightarrow> query_result" where
  "answers_def bt = Inr [hello_def]"

definition answers_down :: "BotType \<Rightarrow> query_result" where
  "answers_down bt = Inl (Foreign ''connection refused'')"

section \<open>Lemmas on get\<close>

lemma ext_scan_suffix: "\<exists>ys. rev xs @ acc = ys @ ext_scan sep xs acc"
proof (induction xs arbitrary: acc)
  case Nil
  show ?case by simp
next
  case (Cons c cs)
  from Cons.IH [of "c # acc"] show ?case by auto
qed

lemma Ext_suffix: "\<exists>ys. name = ys @ Ext sep name"
  using ext_scan_suffix [of "rev name" "[]" sep] by (simp add: Ext_def)

lemma TrimSuffix_Ext: "TrimSuffix name (Ext sep name) @ Ext sep name = name"
proof -
  obtain ys where n: "name = ys @ Ext sep name" using Ext_suffix by blast
  have "HasSuffix (ys @ Ext sep name) (Ext sep name)" by (simp add: HasSuffix_def)
  then have "TrimSuffix (ys @ Ext sep name) (Ext sep name) = ys" by (simp add: TrimSuffix_def)
  with n show ?thesis by metis
qed

lemma ext_scan_dot:
  "CHR ''.'' \<notin> set acc \<Longrightarrow>
   ext_scan sep xs acc = [] \<or> (\<exists>e. ext_scan sep xs acc = CHR ''.'' # e \<and> CHR ''.'' \<notin> set e)"
  by (induction xs arbitrary: acc) auto

lemma Ext_dot: "Ext sep name = [] \<or> (\<exists>e. Ext sep name = CHR ''.'' # e \<and> CHR ''.'' \<notin> set e)"
  using ext_scan_dot [of "[]" sep "rev name"] by (simp add: Ext_def)

lemma entry_file_id: "file_id (entry_file sep e) @ extension (entry_file sep e) = fileName (entry_file sep e)"
  by (simp add: entry_file_def Let_def TrimSuffix_Ext)

lemma find_snoc:
  "find P (xs @ [y]) = (case find P xs of None \<Rightarrow> (if P y then Some y else None) | Some x \<Rightarrow> Some x)"
  by (induction xs) auto

lemma collect_lookup:
  "collect sep m es i =
     (case find (\<lambda>e. file_id (entry_file sep e) = i) (rev es) of
        None \<Rightarrow> m i
      | Some e \<Rightarrow> Some (entry_file sep e))"
  by (induction es arbitrary: m) (auto simp: find_snoc Let_def split: option.splits)

lemma collect_keyed:
  "\<forall>i f. m i = Some f \<longrightarrow> file_id f = i \<Longrightarrow> collect sep m es i = Some f \<Longrightarrow> file_id f = i"
proof (induction es arbitrary: m)
  case Nil
  then show ?case by simp
next
  case (Cons e es)
  have "\<forall>j g. (m(file_id (entry_file sep e) \<mapsto> entry_file sep e)) j = Some g \<longrightarrow> file_id g = j"
    using Cons.prems(1) by (auto split: if_splits)
  moreover from Cons.prems(2)
  have "collect sep (m(file_id (entry_file sep e) \<mapsto> entry_file sep e)) es i = Some f"
    by (simp add: Let_def)
  ultimately show ?case by (rule Cons.IH)
qed

lemma get_keyed: "get rt q = Inr files \<Longrightarrow> files i = Some f \<Longrightarrow> file_id f = i"
  using collect_keyed [of Map.empty "IsPathSeparator rt" _ i f]
  by (auto simp: get_def split: sum.splits)

section \<open>Lemmas on the tick\<close>

lemma dispatches_simps:
  "dispatches bt i [] = []"
  "dispatches bt i (e # es) = (if dispatched bt i e then [e] else []) @ dispatches bt i es"
  "dispatches bt i (es @ es') = dispatches bt i es @ dispatches bt i es'"
  by (simp_all add: dispatches_def)

lemma notify_other: "b \<noteq> bt \<Longrightarrow> dispatches b i (notify c bt files sub is) = []"
  by (induction "is") (auto simp: dispatches_simps split: option.splits)

lemma notify_notin: "i \<notin> set is \<Longrightarrow> dispatches bt i (notify c bt files sub is) = []"
  by (induction "is") (auto simp: dispatches_simps split: option.splits)

lemma notify_count:
  "distinct is \<Longrightarrow> i \<in> set is \<Longrightarrow>
   dispatches bt i (notify c bt files sub is) =
     (case sub i of None \<Rightarrow> []
      | Some callback \<Rightarrow>
          (case files i of None \<Rightarrow> [] | Some f \<Rightarrow> if changed c bt f then [Go bt i callback] else []))"
  by (induction "is") (auto simp: dispatches_simps notify_notin split: option.splits)

lemma notify_no_Send: "filter is_Send (notify c bt files sub is) = []"
  by (induction "is") (auto split: option.splits)

lemma notify_same:
  "c bt = Some files \<Longrightarrow> \<forall>i f. files i = Some f \<longrightarrow> file_id f = i \<Longrightarrow>
   notify c bt files sub is = []"
  by (induction "is") (auto simp: changed_def split: option.splits)

lemma changed_cong: "c' bt = c bt \<Longrightarrow> changed c' bt f = changed c bt f"
  by (simp add: changed_def)

lemma notify_cong: "c' bt = c bt \<Longrightarrow> notify c' bt files sub is = notify c bt files sub is"
  by (induction "is") (auto simp: changed_cong [of c' bt c] split: option.splits)

lemma tick_botType_subscription: "subscription (fst (tick_botType rt ids qs s bt)) = subscription s"
  by (simp add: tick_botType_def Let_def split: option.splits sum.splits)

lemma tick_botType_other:
  "b \<noteq> bt \<Longrightarrow> cache (fst (tick_botType rt ids qs s bt)) b = cache s b"
  by (simp add: tick_botType_def Let_def split: option.splits sum.splits)

lemma tick_botType_dispatches_other:
  "b \<noteq> bt \<Longrightarrow> dispatches b i (snd (tick_botType rt ids qs s bt)) = []"
  by (simp add: tick_botType_def Let_def dispatches_simps notify_other split: option.splits sum.splits)

lemma tick_botType_no_Send: "filter is_Send (snd (tick_botType rt ids qs s bt)) = []"
  by (simp add: tick_botType_def Let_def notify_no_Send split: option.splits sum.splits)

lemma tick_botType_cong:
  assumes "subscription s' bt = subscription s bt" and "cache s' bt = cache s bt"
  shows "snd (tick_botType rt ids qs s' bt) = snd (tick_botType rt ids qs s bt)"
    and "cache (fst (tick_botType rt ids qs s' bt)) bt = cache (fst (tick_botType rt ids qs s bt)) bt"
  using assms
  by (auto simp: tick_botType_def Let_def split: option.splits sum.splits intro!: notify_cong)

lemma tick_botType_failed:
  assumes "qs bt = Inl e"
  shows "cache (fst (tick_botType rt ids qs s b)) bt = cache s bt \<and>
         dispatches bt i (snd (tick_botType rt ids qs s b)) = []"
proof (cases "b = bt")
  case True
  with assms show ?thesis
    by (simp add: tick_botType_def get_def dispatches_simps split: option.splits)
next
  case False
  then have "bt \<noteq> b" by simp
  from tick_botType_other [OF this, of rt ids qs s]
    tick_botType_dispatches_other [OF this, of i rt ids qs s]
  show ?thesis by simp
qed


lemma on_tick_Cons:
  "on_tick rt ids qs s (b # bts) =
     (fst (on_tick rt ids qs (fst (tick_botType rt ids qs s b)) bts),
      snd (tick_botType rt ids qs s b) @ snd (on_tick rt ids qs (fst (tick_botType rt ids qs s b)) bts))"
  by (simp split: prod.splits)

lemma on_tick_subscription: "subscription (fst (on_tick rt ids qs s bts)) = subscription s"
proof (induction bts arbitrary: s)
  case Nil
  show ?case by simp
next
  case (Cons b bts)
  show ?case
    using Cons.IH [of "fst (tick_botType rt ids qs s b)"] tick_botType_subscription [of rt ids qs s b]
    by (simp add: on_tick_Cons del: on_tick.simps)
qed

lemma on_tick_no_Send: "filter is_Send (snd (on_tick rt ids qs s bts)) = []"
proof (induction bts arbitrary: s)
  case Nil
  show ?case by simp
next
  case (Cons b bts)
  show ?case
    using Cons.IH [of "fst (tick_botType rt ids qs s b)"] tick_botType_no_Send [of rt ids qs s b]
    by (simp add: on_tick_Cons del: on_tick.simps)
qed

lemma on_tick_notin:
  "bt \<notin> set bts \<Longrightarrow>
   cache (fst (on_tick rt ids qs s bts)) bt = cache s bt \<and>
   dispatches bt i (snd (on_tick rt ids qs s bts)) = []"
proof (induction bts arbitrary: s)
  case Nil
  show ?case by (simp add: dispatches_simps)
next
  case (Cons b bts)
  then have ne: "bt \<noteq> b" and nin: "bt \<notin> set bts" by auto
  show ?case
    using Cons.IH [OF nin, of "fst (tick_botType rt ids qs s b)"]
      tick_botType_other [OF ne, of rt ids qs s] tick_botType_dispatches_other [OF ne, of i rt ids qs s]
    by (simp add: on_tick_Cons dispatches_simps del: on_tick.simps)
qed

lemma on_tick_at:
  "distinct bts \<Longrightarrow> bt \<in> set bts \<Longrightarrow>
   cache (fst (on_tick rt ids qs s bts)) bt = cache (fst (tick_botType rt ids qs s bt)) bt \<and>
   dispatches bt i (snd (on_tick rt ids qs s bts)) = dispatches bt i (snd (tick_botType rt ids qs s bt))"
proof (induction bts arbitrary: s)
  case Nil
  then show ?case by simp
next
  case (Cons b bts)
  show ?case
  proof (cases "b = bt")
    case True
    with Cons.prems have nin: "bt \<notin> set bts" by simp
    show ?thesis
      using on_tick_notin [OF nin, of rt ids qs "fst (tick_botType rt ids qs s bt)" i] True
      by (simp add: on_tick_Cons dispatches_simps del: on_tick.simps)
  next
    case False
    then have ne: "bt \<noteq> b" by simp
    from Cons.prems False have d: "distinct bts" and m: "bt \<in> set bts" by auto
    let ?s1 = "fst (tick_botType rt ids qs s b)"
    have c: "cache ?s1 bt = cache s bt" using tick_botType_other [OF ne] .
    have u: "subscription ?s1 bt = subscription s bt" by (simp add: tick_botType_subscription)
    show ?thesis
      using Cons.IH [OF d m, of ?s1] tick_botType_cong [OF u c, of rt ids qs]
        tick_botType_dispatches_other [OF ne, of i rt ids qs s]
      by (simp add: on_tick_Cons dispatches_simps del: on_tick.simps)
  qed
qed

lemma on_tick_failed:
  assumes "qs bt = Inl e"
  shows "cache (fst (on_tick rt ids qs s bts)) bt = cache s bt \<and>
         dispatches bt i (snd (on_tick rt ids qs s bts)) = []"
proof (induction bts arbitrary: s)
  case Nil
  show ?case by (simp add: dispatches_simps)
next
  case (Cons b bts)
  show ?case
    using Cons.IH [of "fst (tick_botType rt ids qs s b)"]
      tick_botType_failed [where qs = qs, OF assms, of rt ids s b i]
    by (simp add: on_tick_Cons dispatches_simps del: on_tick.simps)
qed


lemma tick_orderD:
  assumes "tick_order s bts ids" and "subscription s bt = Some sub"
  shows "distinct bts" and "bt \<in> set bts" and "distinct (ids bt)" and "set (ids bt) = dom sub"
  using assms by (auto simp: tick_order_def range_order_def)

section \<open>Lemmas on requests and on runs\<close>


lemma on_request_miss_fetched:
  assumes "cache s (botType req) = None" and "get rt q = Inr fetched"
  shows "on_request rt s req q =
           (s\<lparr>cache := (cache s)(botType req \<mapsto> fetched)\<rparr>,
            [Query (botType req),
             Send (err req) (Some (ConfigNotFoundError (botType req) (req_id req))) (out req)])"
  using assms by (simp add: on_request_def Let_def answer_def)

lemma on_request_hit:
  assumes "cache s (botType req) = Some files"
  shows "on_request rt s req q = (s, [answer rt files req])"
  using assms by (simp add: on_request_def Let_def)

lemma run_Cons:
  "ev \<noteq> Done \<Longrightarrow>
   run rt s (ev # evs) =
     (fst (run rt (fst (select rt s ev)) evs), snd (select rt s ev) @ snd (run rt (fst (select rt s ev)) evs))"
  by (cases ev) (simp_all split: prod.splits)


section \<open>Lemmas on the reply channel\<close>

lemma perform_none: "perform {} es = (es, None)"
proof (induction es)
  case Nil
  show ?case by simp
next
  case (Cons e es)
  then show ?case by (cases e) simp_all
qed

lemma run_blocking_Cons:
  "ev \<noteq> Done \<Longrightarrow>
   run_blocking gone rt s (ev # evs) =
     (case snd (perform gone (snd (select rt s ev))) of
        Some ch \<Rightarrow> (fst (select rt s ev), fst (perform gone (snd (select rt s ev))), Stuck ch, evs)
      | None \<Rightarrow>
          (fst (run_blocking gone rt (fst (select rt s ev)) evs),
           fst (perform gone (snd (select rt s ev))) @
             fst (snd (run_blocking gone rt (fst (select rt s ev)) evs)),
           snd (snd (run_blocking gone rt (fst (select rt s ev)) evs))))"
  by (cases ev) (simp_all split: prod.splits option.splits)

lemma run_blocking_none:
  "fst (run_blocking {} rt s evs) = fst (run rt s evs) \<and>
   fst (snd (run_blocking {} rt s evs)) = snd (run rt s evs)"
proof (induction evs arbitrary: s)
  case Nil
  show ?case by simp
next
  case (Cons ev evs)
  show ?case
  proof (cases "ev = Done")
    case True
    then show ?thesis by simp
  next
    case False
    from Cons.IH [of "fst (select rt s ev)"] show ?thesis
      by (simp add: run_blocking_Cons [OF False] run_Cons [OF False] perform_none
          del: run.simps run_blocking.simps)
  qed
qed

lemma perform_request:
  "err req \<in> gone \<Longrightarrow>
   perform gone (snd (on_request rt s req q)) =
     (takeWhile (\<lambda>e. \<not> is_Send e) (snd (on_request rt s req q)), Some (err req))"
  by (simp add: on_request_def Let_def answer_def split: sum.splits option.splits prod.splits)

lemma timed_out_request_blocks:
  assumes "err req \<in> gone"
  shows "run_blocking gone rt s (ReadRequest req q # evs) =
           (fst (on_request rt s req q),
            takeWhile (\<lambda>e. \<not> is_Send e) (snd (on_request rt s req q)), Stuck (err req), evs)"
  using perform_request [OF assms, of rt s q]
  by (simp add: run_blocking_Cons del: run_blocking.simps)

section \<open>The concrete setting, evaluated\<close>

lemma demo_ext: "Ext (IsPathSeparator demo_rt) ''hello.yml'' = ''.yml''"
  "Ext (IsPathSeparator demo_rt) ''hello.json'' = ''.json''"
  by (simp_all add: demo_rt_def Ext_def)

lemma demo_file_abc: "entry_file (IsPathSeparator demo_rt) hello_abc = hello_abc_file"
  by (simp add: entry_file_def Let_def hello_abc_def hello_abc_file_def demo_ext TrimSuffix_def
      HasSuffix_def)

lemma demo_file_def: "entry_file (IsPathSeparator demo_rt) hello_def = hello_def_file"
  by (simp add: entry_file_def Let_def hello_def_def hello_def_file_def demo_ext TrimSuffix_def
      HasSuffix_def)

lemma demo_get_abc: "get demo_rt (Inr [hello_abc]) = Inr [''hello'' \<mapsto> hello_abc_file]"
  by (simp add: get_def Let_def demo_file_abc) (simp add: hello_abc_file_def)

lemma demo_get_def: "get demo_rt (Inr [hello_def]) = Inr [''hello'' \<mapsto> hello_def_file]"
  by (simp add: get_def Let_def demo_file_def) (simp add: hello_def_file_def)

lemma demo_read_abc: "read demo_rt hello_abc_file v = (None, ''message: hi'')"
  by (simp add: read_def hello_abc_file_def demo_rt_def)

lemma watching_order: "tick_order watching [''slackBot''] hello_ids"
  by (simp add: tick_order_def range_order_def watching_def hello_ids_def)

lemma watching_abc_order: "tick_order watching_abc [''slackBot''] hello_ids"
  by (simp add: tick_order_def range_order_def watching_abc_def hello_ids_def)

section \<open>The claims\<close>

text \<open>
  Claim C1, evaluated on the code.  A request for \<open>(slackBot, hello)\<close> arrives while the
  cache has no entry for \<open>slackBot\<close>, and the query succeeds with \<open>hello.yml\<close>.
  The fetched set becomes the cache entry and contains \<open>hello\<close>, and the decoder would
  succeed on that file; nevertheless the reply is the config-not-found error, and the
  output target is left as it was.  The lookup reads the outer variable \<open>files\<close>, which
  the fetch inside the \<open>if !ok\<close> block never assigns (\<open>on_request_miss_fetched\<close> is
  the general form).
\<close>

theorem read_miss_replies_not_found:
  "snd (select demo_rt no_tables (ReadRequest hello_req (Inr [hello_abc]))) =
     [Query ''slackBot'', Send 0 (Some (ConfigNotFoundError ''slackBot'' ''hello'')) ''unset''] \<and>
   cache (fst (select demo_rt no_tables (ReadRequest hello_req (Inr [hello_abc])))) ''slackBot'' =
     Some [''hello'' \<mapsto> hello_abc_file] \<and>
   read demo_rt hello_abc_file (out hello_req) = (None, ''message: hi'')"
  by (simp add: on_request_def Let_def no_tables_def hello_req_def demo_get_abc answer_def
      demo_read_abc)

text \<open>
  Claim C2, evaluated on the code.  A request arrives while the cache has no entry for
  \<open>slackBot\<close>, and the query fails.  The reply is the wrapped query error; afterwards
  the cache holds an entry for \<open>slackBot\<close>, the empty map stored before the fetch.  A
  second request for the same botType, at a time when the query would succeed, calls no
  query and is answered with the config-not-found error (the loop is run from its start,
  with both maps empty).
\<close>

theorem read_miss_failure_leaves_entry:
  "snd (select demo_rt no_tables (ReadRequest hello_req (Inl (Foreign ''connection refused'')))) =
     [Query ''slackBot'',
      Send 0 (Some (QueryFailed (Foreign ''connection refused''))) ''unset''] \<and>
   cache (fst (select demo_rt no_tables
      (ReadRequest hello_req (Inl (Foreign ''connection refused''))))) ''slackBot'' = Some Map.empty \<and>
   snd (operate demo_rt
      [ReadRequest hello_req (Inl (Foreign ''connection refused'')),
       ReadRequest hello_req (Inr [hello_abc])] :: nat tables \<times> (nat, string) effect list) =
     [Query ''slackBot'',
      Send 0 (Some (QueryFailed (Foreign ''connection refused''))) ''unset'',
      Send 0 (Some (ConfigNotFoundError ''slackBot'' ''hello'')) ''unset'']"
  by (simp add: operate_def on_request_def Let_def no_tables_def hello_req_def get_def answer_def)

text \<open>
  Claim C3 as stated fails: \<open>slackBot\<close> has a subscription for \<open>hello\<close> and no cache
  entry, the tick's query succeeds and returns \<open>hello\<close>, and the tick starts no
  callback; its only effect besides the cache is the query.
\<close>

theorem tick_without_cache_counterexample:
  "subscription watching ''slackBot'' = Some [''hello'' \<mapsto> 7] \<and>
   cache watching ''slackBot'' = None \<and>
   get demo_rt (answers_abc ''slackBot'') = Inr [''hello'' \<mapsto> hello_abc_file] \<and>
   snd (select demo_rt watching (Tick [''slackBot''] hello_ids answers_abc)) = [Query ''slackBot'']"
  by (simp add: watching_def answers_abc_def demo_get_abc tick_botType_def Let_def hello_ids_def
      changed_def hello_abc_file_def)

text \<open>
  Claim C3 as amended: on a tick, for a botType with a subscription and no cache entry
  whose query succeeds, the fetched set becomes the cache entry and no callback of that
  botType is started.  The tick stores the fetched set under the botType before it
  compares, so every file is compared with itself.
\<close>

theorem tick_without_cache_installs:
  assumes "tick_order s bts ids" and "subscription s bt = Some sub"
    and "cache s bt = None" and "qs bt = Inr entries"
  shows "cache (fst (select rt s (Tick bts ids qs))) bt =
           Some (collect (IsPathSeparator rt) Map.empty entries) \<and>
         (\<forall>i. dispatches bt i (snd (select rt s (Tick bts ids qs))) = [])"
proof -
  let ?files = "collect (IsPathSeparator rt) Map.empty entries"
  have g: "get rt (qs bt) = Inr ?files" by (simp add: get_def assms(4))
  have k: "\<forall>i f. ?files i = Some f \<longrightarrow> file_id f = i" using get_keyed [OF g] by blast
  have n: "notify ((cache s)(bt \<mapsto> ?files)) bt ?files sub (ids bt) = []"
    by (rule notify_same [OF _ k]) simp
  have t: "tick_botType rt ids qs s bt =
             (s\<lparr>cache := (cache s)(bt \<mapsto> ?files)\<rparr>, [Query bt])"
    by (simp add: tick_botType_def assms(2,3) g n)
  show ?thesis
    using on_tick_at [OF tick_orderD(1,2) [OF assms(1,2)], of rt ids qs s]
    by (simp add: t dispatches_simps)
qed

theorem tick_without_cache_installs_witness:
  "tick_order watching [''slackBot''] hello_ids \<and>
   subscription watching ''slackBot'' = Some [''hello'' \<mapsto> 7] \<and>
   cache watching ''slackBot'' = None \<and> answers_abc ''slackBot'' = Inr [hello_abc] \<and>
   cache (fst (select demo_rt watching (Tick [''slackBot''] hello_ids answers_abc))) ''slackBot'' =
     Some (collect (IsPathSeparator demo_rt) Map.empty [hello_abc]) \<and>
   dispatches ''slackBot'' ''hello''
     (snd (select demo_rt watching (Tick [''slackBot''] hello_ids answers_abc))) = []"
proof -
  have a: "subscription watching ''slackBot'' = Some [''hello'' \<mapsto> 7]"
    and b: "cache watching ''slackBot'' = None" and c: "answers_abc ''slackBot'' = Inr [hello_abc]"
    by (simp_all add: watching_def answers_abc_def)
  from tick_without_cache_installs [where qs = answers_abc and rt = demo_rt, OF watching_order a b c]
    watching_order a b c
  show ?thesis by blast
qed

text \<open>
  Claim C4: on a tick, for a botType with a subscription and a cache entry whose query
  succeeds, a subscribed id that is in the fetched set with a version marker different
  from the cached one has its callback started exactly once, a subscribed id whose marker
  is the same has its callback started zero times, and afterwards the cache entry of the
  botType is the whole fetched set.
\<close>

theorem tick_with_cache_diff:
  assumes "tick_order s bts ids" and "subscription s bt = Some sub"
    and "cache s bt = Some cached" and "qs bt = Inr entries"
  shows "\<exists>files. get rt (qs bt) = Inr files \<and>
      (\<forall>i callback f old.
         sub i = Some callback \<and> files i = Some f \<and> cached i = Some old \<and>
         objectID old \<noteq> objectID f \<longrightarrow>
         dispatches bt i (snd (select rt s (Tick bts ids qs))) = [Go bt i callback]) \<and>
      (\<forall>i callback f old.
         sub i = Some callback \<and> files i = Some f \<and> cached i = Some old \<and>
         objectID old = objectID f \<longrightarrow>
         dispatches bt i (snd (select rt s (Tick bts ids qs))) = []) \<and>
      cache (fst (select rt s (Tick bts ids qs))) bt = Some files"
proof -
  let ?files = "collect (IsPathSeparator rt) Map.empty entries"
  let ?es = "snd (select rt s (Tick bts ids qs))"
  have g: "get rt (qs bt) = Inr ?files" by (simp add: get_def assms(4))
  note ord = tick_orderD [OF assms(1,2)]
  have t: "tick_botType rt ids qs s bt =
             (s\<lparr>cache := (cache s)(bt \<mapsto> ?files)\<rparr>,
              Query bt # notify (cache s) bt ?files sub (ids bt))"
    by (simp add: tick_botType_def Let_def assms(2,3) g)
  have at: "cache (fst (select rt s (Tick bts ids qs))) bt = Some ?files"
    "dispatches bt i ?es = dispatches bt i (notify (cache s) bt ?files sub (ids bt))" for i
    using on_tick_at [OF ord(1,2), of rt ids qs s i] by (simp_all add: t dispatches_simps)
  have ch: "changed (cache s) bt f = (objectID old \<noteq> objectID f)"
    if "?files i = Some f" "cached i = Some old" for i f old
    using get_keyed [OF g that(1)] that(2) by (simp add: changed_def assms(3))
  have d: "dispatches bt i ?es = (if objectID old \<noteq> objectID f then [Go bt i callback] else [])"
    if "sub i = Some callback" "?files i = Some f" "cached i = Some old" for i callback f old
  proof -
    from that(1) ord(4) have "i \<in> set (ids bt)" by auto
    from notify_count [OF ord(3) this, of bt "cache s" ?files sub] at(2) [of i] show ?thesis
      by (simp add: that(1,2) ch [OF that(2,3)])
  qed
  have 1: "\<forall>i callback f old.
         sub i = Some callback \<and> ?files i = Some f \<and> cached i = Some old \<and>
         objectID old \<noteq> objectID f \<longrightarrow> dispatches bt i ?es = [Go bt i callback]"
    using d by auto
  have 2: "\<forall>i callback f old.
         sub i = Some callback \<and> ?files i = Some f \<and> cached i = Some old \<and>
         objectID old = objectID f \<longrightarrow> dispatches bt i ?es = []"
    using d by auto
  show ?thesis by (rule exI [of _ ?files]) (rule conjI g 1 2 at(1))+
qed

theorem tick_with_cache_diff_witness:
  "tick_order watching_abc [''slackBot''] hello_ids \<and>
   subscription watching_abc ''slackBot'' = Some [''hello'' \<mapsto> 7] \<and>
   cache watching_abc ''slackBot'' = Some [''hello'' \<mapsto> hello_abc_file] \<and>
   answers_def ''slackBot'' = Inr [hello_def] \<and>
   objectID hello_abc_file \<noteq> objectID hello_def_file \<and>
   dispatches ''slackBot'' ''hello''
     (snd (select demo_rt watching_abc (Tick [''slackBot''] hello_ids answers_def))) =
     [Go ''slackBot'' ''hello'' 7] \<and>
   cache (fst (select demo_rt watching_abc (Tick [''slackBot''] hello_ids answers_def))) ''slackBot'' =
     Some [''hello'' \<mapsto> hello_def_file]"
proof -
  have a: "subscription watching_abc ''slackBot'' = Some [''hello'' \<mapsto> 7]"
    and b: "cache watching_abc ''slackBot'' = Some [''hello'' \<mapsto> hello_abc_file]"
    and c: "answers_def ''slackBot'' = Inr [hello_def]"
    and d: "objectID hello_abc_file \<noteq> objectID hello_def_file"
    by (simp_all add: watching_abc_def answers_def_def hello_abc_file_def hello_def_file_def)
  let ?es = "snd (select demo_rt watching_abc (Tick [''slackBot''] hello_ids answers_def))"
  let ?s' = "fst (select demo_rt watching_abc (Tick [''slackBot''] hello_ids answers_def))"
  from tick_with_cache_diff [where qs = answers_def and rt = demo_rt, OF watching_abc_order a b c]
  obtain files where g: "get demo_rt (answers_def ''slackBot'') = Inr files"
    and ch: "\<forall>i callback f old.
         [''hello'' \<mapsto> 7::nat] i = Some callback \<and> files i = Some f \<and>
         [''hello'' \<mapsto> hello_abc_file] i = Some old \<and> objectID old \<noteq> objectID f \<longrightarrow>
         dispatches ''slackBot'' i ?es = [Go ''slackBot'' i callback]"
    and st: "cache ?s' ''slackBot'' = Some files"
    by blast
  from g have f: "files = [''hello'' \<mapsto> hello_def_file]" by (simp add: c demo_get_def)
  have "[''hello'' \<mapsto> 7::nat] ''hello'' = Some 7 \<and> files ''hello'' = Some hello_def_file \<and>
        [''hello'' \<mapsto> hello_abc_file] ''hello'' = Some hello_abc_file \<and>
        objectID hello_abc_file \<noteq> objectID hello_def_file"
    using d by (simp add: f)
  with ch have "dispatches ''slackBot'' ''hello'' ?es = [Go ''slackBot'' ''hello'' 7]" by blast
  with st f watching_abc_order a b c d show ?thesis by blast
qed

text \<open>
  Claim C5: on a tick, when the query for a botType fails, the cache entry of that botType
  and all subscriptions are afterwards what they were, no callback of that botType is
  started, and the tick sends nothing on any request's reply channel.
\<close>

theorem tick_fetch_failure_skips:
  assumes "qs bt = Inl e"
  shows "cache (fst (select rt s (Tick bts ids qs))) bt = cache s bt \<and>
         subscription (fst (select rt s (Tick bts ids qs))) = subscription s \<and>
         (\<forall>i. dispatches bt i (snd (select rt s (Tick bts ids qs))) = []) \<and>
         filter is_Send (snd (select rt s (Tick bts ids qs))) = []"
  using on_tick_failed [where qs = qs, OF assms, of rt ids s bts] on_tick_subscription [of rt ids qs s bts]
    on_tick_no_Send [of rt ids qs s bts]
  by simp

theorem tick_fetch_failure_skips_witness:
  "answers_down ''slackBot'' = Inl (Foreign ''connection refused'') \<and>
   subscription watching_abc ''slackBot'' = Some [''hello'' \<mapsto> 7] \<and>
   cache (fst (select demo_rt watching_abc (Tick [''slackBot''] hello_ids answers_down))) ''slackBot'' =
     Some [''hello'' \<mapsto> hello_abc_file] \<and>
   subscription (fst (select demo_rt watching_abc (Tick [''slackBot''] hello_ids answers_down))) =
     subscription watching_abc \<and>
   dispatches ''slackBot'' ''hello''
     (snd (select demo_rt watching_abc (Tick [''slackBot''] hello_ids answers_down))) = [] \<and>
   snd (select demo_rt watching_abc (Tick [''slackBot''] hello_ids answers_down)) = [Query ''slackBot'']"
proof -
  have a: "answers_down ''slackBot'' = Inl (Foreign ''connection refused'')"
    by (simp add: answers_down_def)
  have b: "cache watching_abc ''slackBot'' = Some [''hello'' \<mapsto> hello_abc_file]"
    and c: "subscription watching_abc ''slackBot'' = Some [''hello'' \<mapsto> 7]"
    by (simp_all add: watching_abc_def)
  have d: "snd (select demo_rt watching_abc (Tick [''slackBot''] hello_ids answers_down)) =
      [Query ''slackBot'']"
    by (simp add: tick_botType_def c a get_def)
  from tick_fetch_failure_skips [where qs = answers_down and rt = demo_rt and s = watching_abc
      and bts = "[''slackBot'']" and ids = hello_ids, OF a] a b c d
  show ?thesis by simp
qed




text \<open>
  Claim C7, evaluated on the code.  A first caller's \<open>Read\<close> is taken by the loop and
  returns the timeout error because its timer fires first; its reply channel is channel 0.
  The request is not retracted: the loop calls the querier and stores the fetched set.  The
  reply is not dropped: the loop stays in the send on channel 0, takes neither the second
  caller's request nor \<open>ctx.Done()\<close>, and the second caller's \<open>Read\<close>, whose request
  is never taken, does not return, whichever way its race would go.  The last conjunct is
  the loop with no caller gone, for comparison: there the second request is answered.
\<close>

theorem late_reply_blocks_loop:
  "Read True TimerFirst = Returns (Some SubscriptionTimeout) \<and>
   err hello_req = 0 \<and>
   snd (run_blocking {0} demo_rt no_tables
      [ReadRequest hello_req (Inr [hello_abc]), ReadRequest hello_req1 (Inr [hello_abc]), Done]) =
     ([Query ''slackBot''], Stuck 0, [ReadRequest hello_req1 (Inr [hello_abc]), Done]) \<and>
   cache (fst (run_blocking {0} demo_rt no_tables
      [ReadRequest hello_req (Inr [hello_abc]), ReadRequest hello_req1 (Inr [hello_abc]), Done]))
     ''slackBot'' = Some [''hello'' \<mapsto> hello_abc_file] \<and>
   Read False TimerFirst = Blocked \<and>
   Read False (ReplyFirst None) = Blocked \<and>
   snd (run demo_rt no_tables
      [ReadRequest hello_req (Inr [hello_abc]), ReadRequest hello_req1 (Inr [hello_abc]), Done]) =
     [Query ''slackBot'', Send 0 (Some (ConfigNotFoundError ''slackBot'' ''hello'')) ''unset'',
      Send 1 None ''message: hi'']"
proof -
  have e: "err hello_req = 0" by (simp add: hello_req_def)
  then have g: "err hello_req \<in> {0::nat}" by simp
  have o: "on_request demo_rt no_tables hello_req (Inr [hello_abc]) =
      (no_tables\<lparr>cache := (cache no_tables)(botType hello_req \<mapsto> [''hello'' \<mapsto> hello_abc_file])\<rparr>,
       [Query (botType hello_req),
        Send (err hello_req) (Some (ConfigNotFoundError (botType hello_req) (req_id hello_req)))
          (out hello_req)])"
    by (rule on_request_miss_fetched) (simp_all add: no_tables_def demo_get_abc)
  have b: "run_blocking {0} demo_rt no_tables
      [ReadRequest hello_req (Inr [hello_abc]), ReadRequest hello_req1 (Inr [hello_abc]), Done] =
      (fst (on_request demo_rt no_tables hello_req (Inr [hello_abc])),
       takeWhile (\<lambda>e. \<not> is_Send e) (snd (on_request demo_rt no_tables hello_req (Inr [hello_abc]))),
       Stuck (err hello_req), [ReadRequest hello_req1 (Inr [hello_abc]), Done])"
    by (rule timed_out_request_blocks [OF g])
  have 1: "snd (run_blocking {0} demo_rt no_tables
      [ReadRequest hello_req (Inr [hello_abc]), ReadRequest hello_req1 (Inr [hello_abc]), Done]) =
     ([Query ''slackBot''], Stuck 0, [ReadRequest hello_req1 (Inr [hello_abc]), Done])"
    unfolding b o by (simp add: hello_req_def)
  have 2: "cache (fst (run_blocking {0} demo_rt no_tables
      [ReadRequest hello_req (Inr [hello_abc]), ReadRequest hello_req1 (Inr [hello_abc]), Done]))
     ''slackBot'' = Some [''hello'' \<mapsto> hello_abc_file]"
    unfolding b o by (simp add: hello_req_def)
  have 3: "snd (run demo_rt no_tables
      [ReadRequest hello_req (Inr [hello_abc]), ReadRequest hello_req1 (Inr [hello_abc]), Done]) =
     [Query ''slackBot'', Send 0 (Some (ConfigNotFoundError ''slackBot'' ''hello'')) ''unset'',
      Send 1 None ''message: hi'']"
    by (simp add: o) (simp add: on_request_def Let_def hello_req_def hello_req1_def answer_def
        demo_read_abc)
  have 4: "Read True TimerFirst = Returns (Some SubscriptionTimeout)"
    "Read False TimerFirst = Blocked" "Read False (ReplyFirst None) = Blocked"
    by (simp_all add: Read_def)
  show ?thesis by (rule conjI e 1 2 3 4)+
qed

text \<open>
  Claim C8: \<open>read\<close> chooses by the extension alone.  For \<open>.yml\<close> and \<open>.yaml\<close> the
  result is that of the yaml decoder on the content and the output target, for
  \<open>.json\<close> that of the json decoder, and for every other extension it is the
  unsupported-extension error with the output target unchanged.
\<close>

theorem read_by_extension:
  "(extension f = ''.yml'' \<or> extension f = ''.yaml'' \<longrightarrow>
      read rt f v = yaml_Unmarshal rt (content f) v) \<and>
   (extension f = ''.json'' \<longrightarrow> read rt f v = json_Unmarshal rt (content f) v) \<and>
   (extension f \<noteq> ''.yml'' \<and> extension f \<noteq> ''.yaml'' \<and> extension f \<noteq> ''.json'' \<longrightarrow>
      read rt f v = (Some (UnsupportedExtension (file_id f) (extension f)), v))"
  by (simp add: read_def)

theorem read_by_extension_witness:
  "read demo_rt hello_abc_file ''unset'' = (None, ''message: hi'') \<and>
   read demo_rt (hello_abc_file\<lparr>extension := ''.json''\<rparr>) ''unset'' = (None, ''message: hi'') \<and>
   read demo_rt (hello_abc_file\<lparr>extension := ''.toml''\<rparr>) ''unset'' =
     (Some (UnsupportedExtension ''hello'' ''.toml''), ''unset'')"
  using read_by_extension [of hello_abc_file demo_rt "''unset''"]
    read_by_extension [of "hello_abc_file\<lparr>extension := ''.json''\<rparr>" demo_rt "''unset''"]
    read_by_extension [of "hello_abc_file\<lparr>extension := ''.toml''\<rparr>" demo_rt "''unset''"]
  by (simp add: hello_abc_file_def demo_rt_def)

text \<open>
  Claim C9: \<open>NewConfig\<close> keeps owner, name and base directory and sets the branch to
  \<open>master\<close>, the interval to one minute and the timeout to five seconds (in
  nanoseconds); \<open>New\<close> returns an error, and no watcher, exactly when the client is
  nil after all options have been applied, and otherwise returns the watcher the options
  produced.
\<close>

theorem NewConfig_defaults_and_New:
  "NewConfig owner name baseDir =
     \<lparr>Owner = owner, Name = name, BaseDir = baseDir, Branch = ''master'',
      Interval = 60000000000, TimeOut = 5000000000\<rparr> \<and>
   Interval (NewConfig owner name baseDir) = Minute \<and>
   TimeOut (NewConfig owner name baseDir) = 5 * Second \<and>
   (case New cfg opts of
      Inl e \<Rightarrow> e = ClientMissing \<and> client (apply_opts \<lparr>client = None, config = cfg\<rparr> opts) = None
    | Inr w \<Rightarrow> w = apply_opts \<lparr>client = None, config = cfg\<rparr> opts \<and> client w \<noteq> None)"
  by (simp add: NewConfig_def New_def Let_def Minute_def Second_def Millisecond_def
      Microsecond_def Nanosecond_def)

theorem NewConfig_defaults_and_New_witness:
  "New (NewConfig ''o'' ''n'' ''d'') ([] :: nat Option list) = Inl ClientMissing \<and>
   New (NewConfig ''o'' ''n'' ''d'') [WithClient (1::nat)] =
     Inr \<lparr>client = Some 1, config = NewConfig ''o'' ''n'' ''d''\<rparr> \<and>
   New (NewConfig ''o'' ''n'' ''d'') [WithClient (1::nat), (\<lambda>w. w\<lparr>client := None\<rparr>)] = Inl ClientMissing"
  using NewConfig_defaults_and_New [where cfg = "NewConfig ''o'' ''n'' ''d''" and opts = "[] :: nat Option list"]
    NewConfig_defaults_and_New [where cfg = "NewConfig ''o'' ''n'' ''d''" and opts = "[WithClient (1::nat)]"]
    NewConfig_defaults_and_New [where cfg = "NewConfig ''o'' ''n'' ''d''"
       and opts = "[WithClient (1::nat), (\<lambda>w. w\<lparr>client := None\<rparr>)]"]
  by (simp add: New_def apply_opts_def WithClient_def)

text \<open>
  Claim C10: a successful \<open>get\<close> returns a map in which every file is stored under its
  own id, the file name is the id followed by the extension, and the extension is what
  \<open>filepath.Ext\<close> gives (empty, or a dot followed by bytes without a dot).  The file
  under an id is made from the last-listed entry with that id.  In particular, when two
  entries have names that differ only in the extension and the second is listed last,
  both have the same id and the map holds the second.
\<close>

theorem get_keyed_by_id:
  "\<exists>files. get rt (Inr entries) = Inr files \<and>
     (\<forall>i f. files i = Some f \<longrightarrow>
        file_id f = i \<and> fileName f = file_id f @ extension f \<and>
        extension f = Ext (IsPathSeparator rt) (fileName f) \<and>
        (extension f = [] \<or> (\<exists>x. extension f = CHR ''.'' # x \<and> CHR ''.'' \<notin> set x))) \<and>
     (\<forall>i. files i =
        map_option (entry_file (IsPathSeparator rt))
          (find (\<lambda>e. file_id (entry_file (IsPathSeparator rt) e) = i) (rev entries))) \<and>
     (\<forall>b x y e1 e2 es1 es2.
        entries = es1 @ e1 # es2 @ [e2] \<and>
        Name e1 = b @ x \<and> Ext (IsPathSeparator rt) (Name e1) = x \<and>
        Name e2 = b @ y \<and> Ext (IsPathSeparator rt) (Name e2) = y \<longrightarrow>
        file_id (entry_file (IsPathSeparator rt) e1) = b \<and>
        file_id (entry_file (IsPathSeparator rt) e2) = b \<and>
        files b = Some (entry_file (IsPathSeparator rt) e2))"
proof -
  let ?sep = "IsPathSeparator rt"
  let ?files = "collect ?sep Map.empty entries"
  have look: "?files i = map_option (entry_file ?sep) (find (\<lambda>e. file_id (entry_file ?sep e) = i) (rev entries))" for i
    by (simp add: collect_lookup split: option.splits)
  have shape: "file_id f = i \<and> fileName f = file_id f @ extension f \<and>
        extension f = Ext ?sep (fileName f) \<and>
        (extension f = [] \<or> (\<exists>x. extension f = CHR ''.'' # x \<and> CHR ''.'' \<notin> set x))"
    if "?files i = Some f" for i f
  proof -
    from that look [of i] obtain e where f: "f = entry_file ?sep e"
      and "find (\<lambda>e. file_id (entry_file ?sep e) = i) (rev entries) = Some e"
      by auto
    then have "file_id f = i" by (auto simp: find_Some_iff)
    moreover have "fileName f = file_id f @ extension f" by (simp add: f entry_file_id)
    moreover have "extension f = Ext ?sep (fileName f)" by (simp add: f entry_file_def Let_def)
    ultimately show ?thesis using Ext_dot [of ?sep "fileName f"] by metis
  qed
  have strip: "file_id (entry_file ?sep e) = b" if "Name e = b @ x" "Ext ?sep (Name e) = x" for e b x
    using that TrimSuffix_Ext [of "Name e" ?sep] by (simp add: entry_file_def Let_def)
  have coll: "file_id (entry_file ?sep e1) = b \<and> file_id (entry_file ?sep e2) = b \<and>
        ?files b = Some (entry_file ?sep e2)"
    if "entries = es1 @ e1 # es2 @ [e2]" "Name e1 = b @ x" "Ext ?sep (Name e1) = x"
       "Name e2 = b @ y" "Ext ?sep (Name e2) = y" for b x y e1 e2 es1 es2
  proof -
    have "find (\<lambda>e. file_id (entry_file ?sep e) = b) (rev entries) = Some e2"
      using strip [OF that(4,5)] that(1) by simp
    then have "?files b = Some (entry_file ?sep e2)" by (simp add: look)
    then show ?thesis using strip [OF that(2,3)] strip [OF that(4,5)] by simp
  qed
  have 0: "get rt (Inr entries) = Inr ?files" by (simp add: get_def)
  have 1: "\<forall>i f. ?files i = Some f \<longrightarrow>
        file_id f = i \<and> fileName f = file_id f @ extension f \<and>
        extension f = Ext ?sep (fileName f) \<and>
        (extension f = [] \<or> (\<exists>x. extension f = CHR ''.'' # x \<and> CHR ''.'' \<notin> set x))"
    using shape by blast
  have 2: "\<forall>i. ?files i =
        map_option (entry_file ?sep) (find (\<lambda>e. file_id (entry_file ?sep e) = i) (rev entries))"
    using look by blast
  have 3: "\<forall>b x y e1 e2 es1 es2.
        entries = es1 @ e1 # es2 @ [e2] \<and>
        Name e1 = b @ x \<and> Ext ?sep (Name e1) = x \<and>
        Name e2 = b @ y \<and> Ext ?sep (Name e2) = y \<longrightarrow>
        file_id (entry_file ?sep e1) = b \<and> file_id (entry_file ?sep e2) = b \<and>
        ?files b = Some (entry_file ?sep e2)"
    using coll by blast
  show ?thesis by (rule exI [of _ ?files]) (rule conjI 0 1 2 3)+
qed

theorem get_keyed_by_id_witness:
  "\<exists>files. get demo_rt (Inr [hello_abc, hello_json]) = Inr files \<and>
     files ''hello'' = Some (entry_file (IsPathSeparator demo_rt) hello_json) \<and>
     file_id (entry_file (IsPathSeparator demo_rt) hello_abc) = ''hello'' \<and>
     extension (entry_file (IsPathSeparator demo_rt) hello_json) = ''.json''"
proof -
  from get_keyed_by_id [of demo_rt "[hello_abc, hello_json]"]
  obtain files where g: "get demo_rt (Inr [hello_abc, hello_json]) = Inr files"
    and c: "\<forall>b x y e1 e2 es1 es2.
        [hello_abc, hello_json] = es1 @ e1 # es2 @ [e2] \<and>
        Name e1 = b @ x \<and> Ext (IsPathSeparator demo_rt) (Name e1) = x \<and>
        Name e2 = b @ y \<and> Ext (IsPathSeparator demo_rt) (Name e2) = y \<longrightarrow>
        file_id (entry_file (IsPathSeparator demo_rt) e1) = b \<and>
        file_id (entry_file (IsPathSeparator demo_rt) e2) = b \<and>
        files b = Some (entry_file (IsPathSeparator demo_rt) e2)"
    by blast
  have "[hello_abc, hello_json] = [] @ hello_abc # [] @ [hello_json] \<and>
        Name hello_abc = ''hello'' @ ''.yml'' \<and> Ext (IsPathSeparator demo_rt) (Name hello_abc) = ''.yml'' \<and>
        Name hello_json = ''hello'' @ ''.json'' \<and> Ext (IsPathSeparator demo_rt) (Name hello_json) = ''.json''"
    by (simp add: hello_abc_def hello_json_def demo_ext)
  with c have "file_id (entry_file (IsPathSeparator demo_rt) hello_abc) = ''hello'' \<and>
        files ''hello'' = Some (entry_file (IsPathSeparator demo_rt) hello_json)"
    by blast
  moreover have "extension (entry_file (IsPathSeparator demo_rt) hello_json) = ''.json''"
    by (simp add: entry_file_def Let_def hello_json_def demo_ext)
  ultimately show ?thesis using g by blast
qed

end
